theory Spec2Isabelle
  imports Main
begin

section \<open>Strings of the host language\<close>

text \<open>
  Paths and file contents are modelled as \<^typ>\<open>string\<close>, one \<^typ>\<open>char\<close> per code unit;
  code units above 255 are outside the model.  The functions below are the
  \<open>String.prototype\<close> methods the server code calls, for a one-character separator
  where the source passes one.  \<open>indexOf\<close> returns \<open>-1\<close> when the character does not
  occur, \<open>trim\<close> removes the white space below 256 at both ends, and \<open>toLowerCase\<close>
  changes the letters A to Z and the upper-case letters of the range U+00C0 to U+00DE
  (the multiplication sign U+00D7 in that range is not a letter and stays).
\<close>

fun splitOn :: "char \<Rightarrow> string \<Rightarrow> string list" where
  "splitOn c [] = [[]]"
| "splitOn c (x # xs) =
     (if x = c then [] # splitOn c xs
      else (case splitOn c xs of
              [] \<Rightarrow> [[x]]
            | p # ps \<Rightarrow> (x # p) # ps))"

fun indexOf :: "string \<Rightarrow> char \<Rightarrow> int" where
  "indexOf [] c = - 1"
| "indexOf (x # xs) c =
     (if x = c then 0
      else (let r = indexOf xs c in if r < 0 then - 1 else r + 1))"

definition substring :: "string \<Rightarrow> nat \<Rightarrow> nat \<Rightarrow> string" where
  "substring s i j = (let a = min i j; b = max i j in take (b - a) (drop a s))"

definition startsWith :: "string \<Rightarrow> string \<Rightarrow> bool" where
  "startsWith s p = (take (length p) s = p)"

definition endsWith :: "string \<Rightarrow> string \<Rightarrow> bool" where
  "endsWith s p = (length p \<le> length s \<and> drop (length s - length p) s = p)"

fun join :: "string \<Rightarrow> string list \<Rightarrow> string" where
  "join sep [] = []"
| "join sep [p] = p"
| "join sep (p # q # ps) = p @ sep @ join sep (q # ps)"

definition isWhiteSpace :: "char \<Rightarrow> bool" where
  "isWhiteSpace c = (c \<in> set [CHR 0x09, CHR 0x0A, CHR 0x0B, CHR 0x0C, CHR 0x0D, CHR 0x20, CHR 0xA0])"

definition trim :: "string \<Rightarrow> string" where
  "trim s = rev (dropWhile isWhiteSpace (rev (dropWhile isWhiteSpace s)))"

definition lowerChar :: "char \<Rightarrow> char" where
  "lowerChar c =
     (let n = (of_char c :: nat)
      in if (65 \<le> n \<and> n \<le> 90) \<or> (192 \<le> n \<and> n \<le> 222 \<and> (n < 215 \<or> 215 < n))
         then char_of (n + 32) else c)"

definition toLowerCase :: "string \<Rightarrow> string" where
  "toLowerCase s = map lowerChar s"

text \<open>
  \<open>path.extname\<close> of the POSIX flavour: trailing slashes are skipped, the last path
  portion is inspected, and the result is empty when that portion has no dot, when its
  only dot is its first character, or when it is exactly \<open>..\<close>.
\<close>

definition extname :: "string \<Rightarrow> string" where
  "extname p =
     (let base = rev (takeWhile (\<lambda>c. c \<noteq> CHR ''/'') (dropWhile (\<lambda>c. c = CHR ''/'') (rev p)));
          afterDot = rev (takeWhile (\<lambda>c. c \<noteq> CHR ''.'') (rev base));
          startDot = length base - length afterDot - 1
      in if CHR ''.'' \<notin> set base then []
         else if startDot = 0 then []
         else if base = ''..'' then []
         else CHR ''.'' # afterDot)"

section \<open>Archive entries\<close>

text \<open>
  The view of an \<open>AdmZip.IZipEntry\<close> that the server reads: \<open>entryName\<close>,
  \<open>isDirectory\<close>, \<open>header.size\<close> and \<open>getData()\<close> decoded as text.  \<open>getData\<close> is
  \<open>None\<close> when the call throws.
\<close>

record ZipEntry =
  entryName :: string
  isDirectory :: bool
  headerSize :: nat
  getData :: "string option"

section \<open>Extension and ignore policy\<close>

definition ALLOWED_EXTENSIONS :: "string list" where
  "ALLOWED_EXTENSIONS =
     [''.js'', ''.jsx'', ''.ts'', ''.tsx'', ''.py'', ''.java'', ''.cpp'', ''.c'', ''.h'', ''.cs'',
      ''.php'', ''.rb'', ''.go'', ''.rs'', ''.swift'', ''.kt'', ''.scala'', ''.clj'', ''.hs'',
      ''.html'', ''.htm'', ''.css'', ''.scss'', ''.sass'', ''.less'', ''.xml'', ''.svg'',
      ''.json'', ''.yaml'', ''.yml'', ''.toml'', ''.ini'', ''.cfg'', ''.config'',
      ''.md'', ''.txt'', ''.rst'', ''.adoc'', ''.tex'',
      ''.sql'', ''.sh'', ''.bat'', ''.ps1'', ''.dockerfile'', ''.gitignore'', ''.env'']"

definition IGNORE_PATTERNS :: "string list" where
  "IGNORE_PATTERNS =
     [''node_modules'', ''.git'', ''.svn'', ''.hg'', ''dist'', ''build'', ''target'',
      ''.next'', ''.nuxt'', ''coverage'', ''.nyc_output'', ''.cache'', ''logs'',
      ''__pycache__'', ''.pytest_cache'', ''.tox'', ''venv'', ''env'',
      ''.DS_Store'', ''Thumbs.db'', ''.vscode'', ''.idea'']"

definition shouldIgnore :: "string \<Rightarrow> bool" where
  "shouldIgnore filePath =
     (let parts = splitOn CHR ''/'' filePath
      in list_ex (\<lambda>part. part \<in> set IGNORE_PATTERNS \<or> startsWith part ''.'') parts)"

definition getFileExtension :: "string \<Rightarrow> string" where
  "getFileExtension filename = toLowerCase (extname filename)"

section \<open>Sorting the retained entries\<close>

text \<open>
  \<open>Array.prototype.sort\<close> is stable; with a consistent comparator its result is the
  stable insertion sort below.  The comparator (\<open>localeCompare\<close> in the source) is a
  parameter: negative puts the first argument first, positive the second, zero keeps the
  order of the input.
\<close>

fun insortBy :: "(string \<Rightarrow> string \<Rightarrow> int) \<Rightarrow> ZipEntry \<Rightarrow> ZipEntry list \<Rightarrow> ZipEntry list" where
  "insortBy cmp x [] = [x]"
| "insortBy cmp x (y # ys) =
     (if cmp (entryName x) (entryName y) \<le> 0 then x # y # ys else y # insortBy cmp x ys)"

definition sortBy :: "(string \<Rightarrow> string \<Rightarrow> int) \<Rightarrow> ZipEntry list \<Rightarrow> ZipEntry list" where
  "sortBy cmp xs = foldr (insortBy cmp) xs []"

text \<open>
  Code-unit order, the comparator used where a concrete archive is evaluated: on the
  lower-case ASCII names of those archives it orders as the root collation does.
\<close>

fun codeUnitCompare :: "string \<Rightarrow> string \<Rightarrow> int" where
  "codeUnitCompare [] [] = 0"
| "codeUnitCompare [] (y # ys) = - 1"
| "codeUnitCompare (x # xs) [] = 1"
| "codeUnitCompare (x # xs) (y # ys) =
     (if (of_char x :: nat) < of_char y then - 1
      else if (of_char y :: nat) < of_char x then 1
      else codeUnitCompare xs ys)"

definition validEntries :: "(string \<Rightarrow> string \<Rightarrow> int) \<Rightarrow> ZipEntry list \<Rightarrow> ZipEntry list" where
  "validEntries cmp entries =
     sortBy cmp (filter (\<lambda>entry. \<not> shouldIgnore (entryName entry)) entries)"

section \<open>Common root prefix\<close>

text \<open>
  The prefix detection appears twice in the source with the same text: inside
  \<open>buildFileTree\<close> over \<open>validEntries\<close>, and inside the upload route over \<open>entries\<close>.
\<close>

definition commonPrefixOf :: "ZipEntry list \<Rightarrow> string" where
  "commonPrefixOf es =
     (if length es > 0 then
        (let firstPath = entryName (hd es);
             firstSlash = indexOf firstPath CHR ''/''
         in if firstSlash > 0 then
              (let potentialPrefix = substring firstPath 0 (nat (firstSlash + 1))
               in if list_all (\<lambda>entry. startsWith (entryName entry) potentialPrefix) es
                  then potentialPrefix else [])
            else [])
      else [])"

definition cleanPathOf :: "string \<Rightarrow> ZipEntry \<Rightarrow> string" where
  "cleanPathOf commonPrefix entry =
     (if startsWith (entryName entry) commonPrefix
      then drop (length commonPrefix) (entryName entry)
      else entryName entry)"

definition partsOf :: "string \<Rightarrow> ZipEntry \<Rightarrow> string list" where
  "partsOf commonPrefix entry =
     filter (\<lambda>part. length part > 0) (splitOn CHR ''/'' (cleanPathOf commonPrefix entry))"

section \<open>Tree nodes\<close>

datatype NodeType = File | Folder

text \<open>
  The node literal written by \<open>buildFileTree\<close>.  While the tree is built, \<open>children\<close>
  is a plain object keyed by segment name (an association list in insertion order, keys
  distinct); \<open>convertToArray\<close> turns it into the array of a \<open>FileTreeNode\<close>.  A field
  that the source sets to \<open>undefined\<close> is \<open>None\<close>.
\<close>

datatype RawNode =
  RawNode (raw_name: string) (raw_path: string) (raw_type: NodeType)
          (raw_size: "nat option") (raw_extension: "string option")
          (raw_children: "(string \<times> RawNode) list option")

type_synonym JsObject = "(string \<times> RawNode) list"

datatype FileTreeNode =
  FileTreeNode (node_name: string) (node_path: string) (node_type: NodeType)
               (node_size: "nat option") (node_extension: "string option")
               (node_children: "FileTreeNode list option")

datatype JsError = TypeError

section \<open>Plain objects\<close>

text \<open>
  \<open>root\<close> and every \<open>children\<close> value are object literals \<open>{}\<close>, so a property read
  that finds no own property continues in \<open>Object.prototype\<close>.  The names below are its
  properties; each of them reads as a truthy value without a \<open>children\<close> property.
\<close>

definition objectPrototypeKeys :: "string list" where
  "objectPrototypeKeys =
     [''constructor'', ''__defineGetter__'', ''__defineSetter__'', ''hasOwnProperty'',
      ''__lookupGetter__'', ''__lookupSetter__'', ''isPrototypeOf'', ''propertyIsEnumerable'',
      ''toString'', ''valueOf'', ''__proto__'', ''toLocaleString'']"

datatype PropertyValue = Undefined | Own RawNode | Inherited

definition getProp :: "JsObject \<Rightarrow> string \<Rightarrow> PropertyValue" where
  "getProp obj key =
     (case map_of obj key of
        Some n \<Rightarrow> Own n
      | None \<Rightarrow> if key \<in> set objectPrototypeKeys then Inherited else Undefined)"

text \<open>
  The \<open>children\<close> object of a node is shared with the node, so writing into it is seen
  through the parent; in the model the parent's property is rewritten.
\<close>

definition withChildren :: "RawNode \<Rightarrow> JsObject \<Rightarrow> RawNode" where
  "withChildren n ch =
     RawNode (raw_name n) (raw_path n) (raw_type n) (raw_size n) (raw_extension n) (Some ch)"

fun setChildren :: "JsObject \<Rightarrow> string \<Rightarrow> JsObject \<Rightarrow> JsObject" where
  "setChildren [] key ch = []"
| "setChildren ((k, n) # obj) key ch =
     (if k = key then (k, withChildren n ch) # obj else (k, n) # setChildren obj key ch)"

text \<open>
  Own property keys are enumerated with the array indices first, in ascending numeric
  order, and the other string keys after them in insertion order.  An array index is a
  canonical decimal numeral below \<open>2^32 - 1\<close>.
\<close>

definition isDigit :: "char \<Rightarrow> bool" where
  "isDigit c = (48 \<le> (of_char c :: nat) \<and> (of_char c :: nat) \<le> 57)"

definition numericValue :: "string \<Rightarrow> int" where
  "numericValue s = foldl (\<lambda>n c. 10 * n + ((of_char c :: int) - 48)) 0 s"

definition isArrayIndex :: "string \<Rightarrow> bool" where
  "isArrayIndex s =
     (s \<noteq> [] \<and> list_all isDigit s \<and> (hd s = CHR ''0'' \<longrightarrow> length s = 1)
      \<and> length s \<le> 10 \<and> numericValue s < 4294967295)"

definition ownKeysOrder :: "(string \<times> 'a) list \<Rightarrow> (string \<times> 'a) list" where
  "ownKeysOrder obj =
     sort_key (\<lambda>(k, v). numericValue k) (filter (\<lambda>(k, v). isArrayIndex k) obj)
     @ filter (\<lambda>(k, v). \<not> isArrayIndex k) obj"

definition objectValues :: "(string \<times> 'a) list \<Rightarrow> 'a list" where
  "objectValues obj = map snd (ownKeysOrder obj)"

section \<open>Building the tree\<close>

text \<open>
  \<open>newNode\<close> is the object literal assigned to \<open>current[part]\<close>.  \<open>insertParts\<close>
  is the inner \<open>parts.forEach\<close>: \<open>index\<close> is the position of \<open>part\<close> in \<open>parts\<close>, and
  \<open>current\<close> is the object the source holds in its variable of that name.  When
  \<open>current[part].children\<close> is \<open>undefined\<close> (a file node, or an inherited property), the
  assignment makes \<open>current\<close> undefined and the read \<open>current[part]\<close> of the next
  iteration, which exists because \<open>index < parts.length - 1\<close>, throws a TypeError.
\<close>

definition newNode :: "ZipEntry \<Rightarrow> string list \<Rightarrow> nat \<Rightarrow> string \<Rightarrow> RawNode" where
  "newNode entry parts index part =
     (let isFile = (index = length parts - 1 \<and> \<not> isDirectory entry)
      in RawNode part (join ''/'' (take (index + 1) parts))
           (if isFile then File else Folder)
           (if isFile then Some (headerSize entry) else None)
           (if isFile then Some (getFileExtension part) else None)
           (if isFile then None else Some []))"

fun insertParts ::
  "ZipEntry \<Rightarrow> string list \<Rightarrow> nat \<Rightarrow> string list \<Rightarrow> JsObject \<Rightarrow> JsError + JsObject" where
  "insertParts entry parts index [] current = Inr current"
| "insertParts entry parts index (part # rest) current =
     (let current' = (if getProp current part = Undefined
                      then current @ [(part, newNode entry parts index part)]
                      else current)
      in if index < length parts - 1 then
           (case getProp current' part of
              Own n \<Rightarrow>
                (case raw_children n of
                   Some ch \<Rightarrow>
                     (case insertParts entry parts (index + 1) rest ch of
                        Inl e \<Rightarrow> Inl e
                      | Inr ch' \<Rightarrow> Inr (setChildren current' part ch'))
                 | None \<Rightarrow> Inl TypeError)
            | Inherited \<Rightarrow> Inl TypeError
            | Undefined \<Rightarrow> Inl TypeError)
         else insertParts entry parts (index + 1) rest current')"

definition insertEntry :: "string \<Rightarrow> ZipEntry \<Rightarrow> JsObject \<Rightarrow> JsError + JsObject" where
  "insertEntry commonPrefix entry root =
     (let parts = partsOf commonPrefix entry
      in if length parts = 0 then Inr root
         else insertParts entry parts 0 parts root)"

fun forEachEntry :: "string \<Rightarrow> ZipEntry list \<Rightarrow> JsObject \<Rightarrow> JsError + JsObject" where
  "forEachEntry commonPrefix [] root = Inr root"
| "forEachEntry commonPrefix (entry # es) root =
     (case insertEntry commonPrefix entry root of
        Inl e \<Rightarrow> Inl e
      | Inr root' \<Rightarrow> forEachEntry commonPrefix es root')"

function convertToArray :: "JsObject \<Rightarrow> FileTreeNode list"
  and convertItem :: "RawNode \<Rightarrow> FileTreeNode" where
  "convertToArray node = map convertItem (objectValues node)"
| "convertItem (RawNode n p t s e ch) =
     FileTreeNode n p t s e
       (case ch of Some c \<Rightarrow> Some (convertToArray c) | None \<Rightarrow> None)"
  by pat_completeness auto

termination
proof (relation "measure (\<lambda>v. case v of
                    Inl obj \<Rightarrow> size_list (\<lambda>kv. size (snd kv)) obj
                  | Inr n \<Rightarrow> size n)")
  show "wf (measure (\<lambda>v. case v of
                    Inl obj \<Rightarrow> size_list (\<lambda>kv. size (snd kv)) obj
                  | Inr n \<Rightarrow> size n))"
    by simp
next
  fix node :: JsObject and x :: RawNode
  assume "x \<in> set (objectValues node)"
  then obtain k where "(k, x) \<in> set node"
    by (auto simp: objectValues_def ownKeysOrder_def)
  then have "size x < size_list (\<lambda>kv. size (snd kv)) node"
    by (induction node) auto
  then show "(Inr x, Inl node) \<in> measure (\<lambda>v. case v of
                    Inl obj \<Rightarrow> size_list (\<lambda>kv. size (snd kv)) obj
                  | Inr n \<Rightarrow> size n)"
    by simp
next
  fix n p :: string and t :: NodeType and s :: "nat option" and e :: "string option"
    and ch :: "JsObject option" and c :: JsObject
  assume ch: "ch = Some c"
  have "size_list (\<lambda>kv. size (snd kv)) c \<le> size_list (size_prod (\<lambda>_. 0) size) c"
    by (induction c) auto
  with ch show "(Inl c, Inr (RawNode n p t s e ch)) \<in> measure (\<lambda>v. case v of
                    Inl obj \<Rightarrow> size_list (\<lambda>kv. size (snd kv)) obj
                  | Inr n \<Rightarrow> size n)"
    by simp
qed

definition buildFileTree ::
  "(string \<Rightarrow> string \<Rightarrow> int) \<Rightarrow> ZipEntry list \<Rightarrow> JsError + FileTreeNode list" where
  "buildFileTree cmp entries =
     (let valid = validEntries cmp entries;
          commonPrefix = commonPrefixOf valid
      in case forEachEntry commonPrefix valid [] of
           Inl e \<Rightarrow> Inl e
         | Inr root \<Rightarrow> Inr (convertToArray root))"

section \<open>Formatting\<close>

definition langMap :: "(string \<times> string) list" where
  "langMap =
     [(''.js'', ''javascript''), (''.jsx'', ''jsx''), (''.ts'', ''typescript''), (''.tsx'', ''tsx''),
      (''.py'', ''python''), (''.java'', ''java''), (''.cpp'', ''cpp''), (''.c'', ''c''), (''.h'', ''c''),
      (''.cs'', ''csharp''), (''.php'', ''php''), (''.rb'', ''ruby''), (''.go'', ''go''), (''.rs'', ''rust''),
      (''.swift'', ''swift''), (''.kt'', ''kotlin''), (''.scala'', ''scala''), (''.html'', ''html''),
      (''.htm'', ''html''), (''.css'', ''css''), (''.scss'', ''scss''), (''.sass'', ''sass''),
      (''.json'', ''json''), (''.yaml'', ''yaml''), (''.yml'', ''yaml''), (''.xml'', ''xml''),
      (''.svg'', ''xml''), (''.md'', ''markdown''), (''.sql'', ''sql''), (''.sh'', ''bash''),
      (''.dockerfile'', ''dockerfile'')]"

text \<open>
  \<open>langMap[ext] || 'text'\<close>.  The argument is always a result of \<open>getFileExtension\<close>,
  empty or starting with a dot, so no inherited property name is ever looked up.
\<close>

definition getLanguageFromExtension :: "string \<Rightarrow> string" where
  "getLanguageFromExtension ext =
     (case map_of langMap ext of Some l \<Rightarrow> l | None \<Rightarrow> ''text'')"

definition formatFileContent :: "string \<Rightarrow> string \<Rightarrow> string" where
  "formatFileContent filename content =
     (let extension = getFileExtension filename;
          language = getLanguageFromExtension extension
      in ''### '' @ filename @ ''\<newline>```'' @ language @ ''\<newline>'' @ content @ ''\<newline>```\<newline>\<newline>'')"

text \<open>The connectors and icons of the tree diagram, as their UTF-8 bytes.\<close>

definition connectorLast :: string where
  "connectorLast = [CHR 0xE2, CHR 0x94, CHR 0x94, CHR 0xE2, CHR 0x94, CHR 0x80, CHR 0xE2, CHR 0x94, CHR 0x80, CHR 0x20]"

definition connectorMid :: string where
  "connectorMid = [CHR 0xE2, CHR 0x94, CHR 0x9C, CHR 0xE2, CHR 0x94, CHR 0x80, CHR 0xE2, CHR 0x94, CHR 0x80, CHR 0x20]"

definition verticalBar :: string where
  "verticalBar = [CHR 0xE2, CHR 0x94, CHR 0x82, CHR 0x20, CHR 0x20, CHR 0x20]"

definition folderIcon :: string where
  "folderIcon = [CHR 0xF0, CHR 0x9F, CHR 0x93, CHR 0x81, CHR 0x20]"

definition fileIcon :: string where
  "fileIcon = [CHR 0xF0, CHR 0x9F, CHR 0x93, CHR 0x84, CHR 0x20]"

fun generateFileTreeString :: "FileTreeNode list \<Rightarrow> string \<Rightarrow> bool \<Rightarrow> string" where
  "generateFileTreeString [] prefix isLast = []"
| "generateFileTreeString (FileTreeNode n p t s e ch # rest) prefix isLast =
     (let isLastItem = (rest = []);
          connector = (if isLastItem then connectorLast else connectorMid);
          icon = (if t = Folder then folderIcon else fileIcon);
          line = prefix @ connector @ icon @ n @ ''\<newline>'';
          sub = (case ch of
                   Some c \<Rightarrow>
                     if length c > 0
                     then generateFileTreeString c
                            (prefix @ (if isLastItem then ''    '' else verticalBar)) isLastItem
                     else []
                 | None \<Rightarrow> [])
      in line @ sub @ generateFileTreeString rest prefix isLast)"

section \<open>Walking the tree\<close>

text \<open>The variables the upload route closes over while it walks the tree.\<close>

record ProcessState =
  formattedContent :: string
  totalFiles :: nat
  totalFolders :: nat
  linesOfCode :: nat

definition findEntry :: "ZipEntry list \<Rightarrow> string \<Rightarrow> string \<Rightarrow> ZipEntry option" where
  "findEntry entries originalPath nodePath =
     find (\<lambda>e. entryName e = originalPath \<or> endsWith (entryName e) (''/'' @ nodePath)) entries"

text \<open>
  The body of the \<open>try\<close> block for a file with an allowed extension.  A throwing
  \<open>getData\<close> is caught by the \<open>catch\<close> around it, which only logs.
\<close>

definition embedFile :: "ZipEntry list \<Rightarrow> string \<Rightarrow> string \<Rightarrow> ProcessState \<Rightarrow> ProcessState" where
  "embedFile entries commonPrefix nodePath st =
     (let originalPath = commonPrefix @ nodePath
      in case findEntry entries originalPath nodePath of
           None \<Rightarrow> st
         | Some entry \<Rightarrow>
             if \<not> isDirectory entry then
               (case getData entry of
                  None \<Rightarrow> st
                | Some content \<Rightarrow>
                    if trim content \<noteq> [] then
                      st\<lparr>formattedContent := formattedContent st @ formatFileContent nodePath content,
                         linesOfCode := linesOfCode st + length (splitOn CHR ''\<newline>'' content)\<rparr>
                    else st)
             else st)"

fun processNode :: "ZipEntry list \<Rightarrow> string \<Rightarrow> FileTreeNode \<Rightarrow> ProcessState \<Rightarrow> ProcessState" where
  "processNode entries commonPrefix (FileTreeNode n p t s e ch) st =
     (if t = Folder then
        (let st1 = st\<lparr>totalFolders := totalFolders st + 1\<rparr>
         in case ch of
              Some c \<Rightarrow> fold (processNode entries commonPrefix) c st1
            | None \<Rightarrow> st1)
      else
        (let st1 = st\<lparr>totalFiles := totalFiles st + 1\<rparr>;
             ext = getFileExtension n
         in if ext \<in> set ALLOWED_EXTENSIONS then embedFile entries commonPrefix p st1 else st1))"

section \<open>The upload route\<close>

text \<open>
  \<open>documentHead\<close> is the text the route appends to \<open>formattedContent\<close> before it
  walks the tree: the title, the tree diagram in a fenced block and the heading of the
  file contents.
\<close>

definition documentHead :: "FileTreeNode list \<Rightarrow> string" where
  "documentHead fileTree =
     ''# Project Structure and Contents\<newline>\<newline>''
     @ ''## File Tree\<newline>\<newline>```\<newline>''
     @ generateFileTreeString fileTree [] True
     @ ''```\<newline>\<newline>## File Contents\<newline>\<newline>''"

definition processUpload ::
  "(string \<Rightarrow> string \<Rightarrow> int) \<Rightarrow> ZipEntry list \<Rightarrow> JsError + FileTreeNode list \<times> ProcessState" where
  "processUpload cmp entries =
     (case buildFileTree cmp entries of
        Inl e \<Rightarrow> Inl e
      | Inr fileTree \<Rightarrow>
          (let st0 = \<lparr>formattedContent = documentHead fileTree,
                      totalFiles = 0, totalFolders = 0, linesOfCode = 0\<rparr>;
               commonPrefix = commonPrefixOf entries
           in Inr (fileTree, fold (processNode entries commonPrefix) fileTree st0)))"

section \<open>Notions used in the statements\<close>

text \<open>
  The top-level folder of a path is its first segment, when that segment is not empty and
  a slash follows it.  A list of paths shares a top-level folder when it is not empty and
  all its paths have the same one.  \<open>stripRoot\<close> is one application of the normalizer to
  a whole list: the detected prefix is removed from every entry name.
\<close>

definition topFolder :: "string \<Rightarrow> string option" where
  "topFolder p =
     (let seg = takeWhile (\<lambda>c. c \<noteq> CHR ''/'') p
      in if seg \<noteq> [] \<and> length seg < length p then Some seg else None)"

definition sharesTopFolder :: "string list \<Rightarrow> bool" where
  "sharesTopFolder ps =
     (case ps of
        [] \<Rightarrow> False
      | p # _ \<Rightarrow> topFolder p \<noteq> None \<and> list_all (\<lambda>q. topFolder q = topFolder p) ps)"

definition stripRoot :: "ZipEntry list \<Rightarrow> ZipEntry list" where
  "stripRoot es = map (\<lambda>e. e\<lparr>entryName := cleanPathOf (commonPrefixOf es) e\<rparr>) es"

text \<open>All nodes of a tree in traversal order, and the number of nodes of one kind.\<close>

fun subNodes :: "FileTreeNode \<Rightarrow> FileTreeNode list" where
  "subNodes (FileTreeNode n p t s e ch) =
     FileTreeNode n p t s e ch
     # (case ch of Some c \<Rightarrow> concat (map subNodes c) | None \<Rightarrow> [])"

definition forestNodes :: "FileTreeNode list \<Rightarrow> FileTreeNode list" where
  "forestNodes ts = concat (map subNodes ts)"

definition countKind :: "NodeType \<Rightarrow> FileTreeNode list \<Rightarrow> nat" where
  "countKind k ts = length (filter (\<lambda>n. node_type n = k) (forestNodes ts))"

text \<open>
  The files whose content the walk writes into the document, with the path of the heading
  and the text written, in traversal order; the blocks and the line count they give.
\<close>

definition embeddedContent :: "ZipEntry list \<Rightarrow> string \<Rightarrow> string \<Rightarrow> string option" where
  "embeddedContent entries commonPrefix nodePath =
     (case findEntry entries (commonPrefix @ nodePath) nodePath of
        None \<Rightarrow> None
      | Some entry \<Rightarrow>
          if isDirectory entry then None
          else (case getData entry of
                  None \<Rightarrow> None
                | Some content \<Rightarrow> if trim content = [] then None else Some content))"

fun embeddedIn :: "ZipEntry list \<Rightarrow> string \<Rightarrow> FileTreeNode \<Rightarrow> (string \<times> string) list" where
  "embeddedIn entries commonPrefix (FileTreeNode n p t s e ch) =
     (if t = Folder then
        (case ch of Some c \<Rightarrow> concat (map (embeddedIn entries commonPrefix) c) | None \<Rightarrow> [])
      else if getFileExtension n \<in> set ALLOWED_EXTENSIONS then
        (case embeddedContent entries commonPrefix p of
           Some content \<Rightarrow> [(p, content)]
         | None \<Rightarrow> [])
      else [])"

definition embeddedFiles :: "ZipEntry list \<Rightarrow> string \<Rightarrow> FileTreeNode list \<Rightarrow> (string \<times> string) list" where
  "embeddedFiles entries commonPrefix ts = concat (map (embeddedIn entries commonPrefix) ts)"

definition blocksOf :: "(string \<times> string) list \<Rightarrow> string" where
  "blocksOf fs = concat (map (\<lambda>(p, content). formatFileContent p content) fs)"

definition linesOf :: "(string \<times> string) list \<Rightarrow> nat" where
  "linesOf fs = sum_list (map (\<lambda>(p, content). length (splitOn CHR ''\<newline>'' content)) fs)"

text \<open>The number of file and folder nodes that \<open>processNode\<close> reaches from a node.\<close>

fun visitedFiles :: "FileTreeNode \<Rightarrow> nat" and visitedFolders :: "FileTreeNode \<Rightarrow> nat" where
  "visitedFiles (FileTreeNode n p t s e ch) =
     (if t = Folder then (case ch of Some c \<Rightarrow> sum_list (map visitedFiles c) | None \<Rightarrow> 0) else 1)"
| "visitedFolders (FileTreeNode n p t s e ch) =
     (if t = Folder then 1 + (case ch of Some c \<Rightarrow> sum_list (map visitedFolders c) | None \<Rightarrow> 0) else 0)"

text \<open>All nodes of the object-based tree that \<open>buildFileTree\<close> assembles.\<close>

fun rawSubNodes :: "RawNode \<Rightarrow> RawNode list" where
  "rawSubNodes (RawNode n p t s e ch) =
     RawNode n p t s e ch
     # (case ch of Some c \<Rightarrow> concat (map (\<lambda>(k, x). rawSubNodes x) c) | None \<Rightarrow> [])"

definition rawNodes :: "JsObject \<Rightarrow> RawNode list" where
  "rawNodes obj = concat (map (\<lambda>(k, x). rawSubNodes x) obj)"


text \<open>The three counters of a finished run.\<close>

definition statsOf :: "JsError + FileTreeNode list \<times> ProcessState \<Rightarrow> (nat \<times> nat \<times> nat) option" where
  "statsOf r =
     (case r of
        Inl e \<Rightarrow> None
      | Inr (fileTree, st) \<Rightarrow> Some (totalFiles st, totalFolders st, linesOfCode st))"

section \<open>Archives used in the evaluations\<close>

definition fileEntry :: "string \<Rightarrow> string \<Rightarrow> ZipEntry" where
  "fileEntry name content =
     \<lparr>entryName = name, isDirectory = False, headerSize = length content, getData = Some content\<rparr>"

definition dirEntry :: "string \<Rightarrow> ZipEntry" where
  "dirEntry name = \<lparr>entryName = name, isDirectory = True, headerSize = 0, getData = Some []\<rparr>"

text \<open>
  The archive of the scenario: \<open>proj/src/a.py\<close>, \<open>proj/src/b.txt\<close> and
  \<open>proj/node_modules/x.js\<close>, the last with any size and any data, and the tree
  expected for it.
\<close>

definition scenarioEntries :: "nat \<Rightarrow> string option \<Rightarrow> ZipEntry list" where
  "scenarioEntries xsize xdata =
     [fileEntry ''proj/src/a.py'' ''print(1)\<newline>'',
      fileEntry ''proj/src/b.txt'' [],
      \<lparr>entryName = ''proj/node_modules/x.js'', isDirectory = False,
        headerSize = xsize, getData = xdata\<rparr>]"

definition scenarioTree :: "FileTreeNode list" where
  "scenarioTree =
     [FileTreeNode ''src'' ''src'' Folder None None
        (Some [FileTreeNode ''a.py'' ''src/a.py'' File (Some 9) (Some ''.py'') None,
               FileTreeNode ''b.txt'' ''src/b.txt'' File (Some 0) (Some ''.txt'') None])]"

section \<open>Facts about the string functions\<close>

lemma indexOf_takeWhile:
  "indexOf s c = (if c \<in> set s then int (length (takeWhile (\<lambda>x. x \<noteq> c) s)) else - 1)"
  by (induction s) (auto simp: Let_def)

lemma substring_take: "substring s 0 n = take n s"
  by (simp add: substring_def)

lemma startsWith_Nil: "startsWith s []"
  by (simp add: startsWith_def)

lemma startsWith_append: "startsWith s p \<longleftrightarrow> (\<exists>r. s = p @ r)"
  unfolding startsWith_def
  by (metis append_eq_conv_conj)

lemma takeWhile_lt_iff: "length (takeWhile P s) < length s \<longleftrightarrow> (\<exists>x\<in>set s. \<not> P x)"
  by (induction s) auto

lemma take_Suc_takeWhile:
  assumes "c \<in> set s"
  shows "take (Suc (length (takeWhile (\<lambda>x. x \<noteq> c) s))) s = takeWhile (\<lambda>x. x \<noteq> c) s @ [c]"
  using assms by (induction s) auto

lemma takeWhile_upto:
  "c \<notin> set seg \<Longrightarrow> takeWhile (\<lambda>x. x \<noteq> c) (seg @ c # r) = seg"
  by (induction seg) auto

lemma splitOn_nonempty: "splitOn c s \<noteq> []"
  by (induction s) (auto split: list.splits)





lemma trim_empty_iff: "trim s = [] \<longleftrightarrow> (\<forall>c\<in>set s. isWhiteSpace c)"
proof -
  have "(\<forall>x\<in>set (dropWhile isWhiteSpace s). isWhiteSpace x) \<longleftrightarrow> dropWhile isWhiteSpace s = []"
    by (induction s) auto
  then show ?thesis
    by (simp add: trim_def dropWhile_eq_Nil_conv)
qed

section \<open>Facts about the common prefix\<close>

lemma topFolder_Some_iff:
  "topFolder q = Some seg \<longleftrightarrow> seg \<noteq> [] \<and> CHR ''/'' \<notin> set seg \<and> startsWith q (seg @ ''/'')"
proof
  assume h: "topFolder q = Some seg"
  then have seg: "seg = takeWhile (\<lambda>c. c \<noteq> CHR ''/'') q" and ne: "seg \<noteq> []"
    and lt: "length seg < length q"
    by (auto simp: topFolder_def Let_def split: if_splits)
  from lt seg have mem: "CHR ''/'' \<in> set q"
    by (auto simp: takeWhile_lt_iff)
  have "take (Suc (length seg)) q = seg @ ''/''"
    using take_Suc_takeWhile[OF mem] seg by simp
  then have "startsWith q (seg @ ''/'')"
    by (simp add: startsWith_def)
  moreover have "CHR ''/'' \<notin> set seg"
    using seg by (metis (mono_tags, lifting) set_takeWhileD)
  ultimately show "seg \<noteq> [] \<and> CHR ''/'' \<notin> set seg \<and> startsWith q (seg @ ''/'')"
    using ne by simp
next
  assume h: "seg \<noteq> [] \<and> CHR ''/'' \<notin> set seg \<and> startsWith q (seg @ ''/'')"
  then obtain r where q: "q = seg @ ''/'' @ r"
    by (auto simp: startsWith_append)
  have "takeWhile (\<lambda>c. c \<noteq> CHR ''/'') q = seg"
    using h unfolding q by (simp add: takeWhile_upto)
  then show "topFolder q = Some seg"
    using h q by (simp add: topFolder_def Let_def)
qed

lemma commonPrefixOf_cases:
  "commonPrefixOf es =
     (case es of
        [] \<Rightarrow> []
      | e # _ \<Rightarrow>
          (case topFolder (entryName e) of
             None \<Rightarrow> []
           | Some seg \<Rightarrow>
               if list_all (\<lambda>x. startsWith (entryName x) (seg @ ''/'')) es then seg @ ''/'' else []))"
proof (cases es)
  case Nil
  then show ?thesis by (simp add: commonPrefixOf_def)
next
  case (Cons e rest)
  let ?p = "entryName e"
  let ?seg = "takeWhile (\<lambda>c. c \<noteq> CHR ''/'') ?p"
  show ?thesis
  proof (cases "CHR ''/'' \<in> set ?p \<and> ?seg \<noteq> []")
    case True
    then have tf: "topFolder ?p = Some ?seg"
      by (auto simp: topFolder_def Let_def takeWhile_lt_iff)
    have pos: "indexOf ?p CHR ''/'' > 0"
      using True by (simp add: indexOf_takeWhile)
    have pre: "substring ?p 0 (nat (indexOf ?p CHR ''/'' + 1)) = ?seg @ ''/''"
      using True take_Suc_takeWhile[of "CHR ''/''" ?p]
      by (simp add: indexOf_takeWhile substring_take nat_add_distrib)
    show ?thesis
      using Cons tf pos pre by (simp add: commonPrefixOf_def Let_def)
  next
    case False
    then have tf: "topFolder ?p = None"
      by (auto simp: topFolder_def Let_def takeWhile_lt_iff)
    have "\<not> indexOf ?p CHR ''/'' > 0"
      using False by (auto simp: indexOf_takeWhile)
    then show ?thesis
      using Cons tf by (simp add: commonPrefixOf_def Let_def)
  qed
qed

lemma commonPrefixOf_nonempty_iff:
  "commonPrefixOf es \<noteq> [] \<longleftrightarrow> sharesTopFolder (map entryName es)"
proof (cases es)
  case Nil
  then show ?thesis by (simp add: commonPrefixOf_cases sharesTopFolder_def)
next
  case (Cons e rest)
  show ?thesis
  proof (cases "topFolder (entryName e)")
    case None
    then show ?thesis using Cons by (simp add: commonPrefixOf_cases sharesTopFolder_def)
  next
    case (Some seg)
    then have seg: "seg \<noteq> []" "CHR ''/'' \<notin> set seg"
      by (simp_all add: topFolder_Some_iff)
    have "list_all (\<lambda>x. startsWith (entryName x) (seg @ ''/'')) es
          \<longleftrightarrow> list_all (\<lambda>q. topFolder q = Some seg) (map entryName es)"
      using seg by (simp add: list_all_iff topFolder_Some_iff)
    then show ?thesis
      using Cons Some by (simp add: commonPrefixOf_cases sharesTopFolder_def)
  qed
qed

lemma stripRoot_noop: "commonPrefixOf es = [] \<Longrightarrow> stripRoot es = es"
  by (simp add: stripRoot_def cleanPathOf_def startsWith_Nil map_idI)









section \<open>Facts about the walk\<close>

lemma embedFile_eq:
  "embedFile entries cp p st =
     (case embeddedContent entries cp p of
        None \<Rightarrow> st
      | Some content \<Rightarrow>
          st\<lparr>formattedContent := formattedContent st @ formatFileContent p content,
             linesOfCode := linesOfCode st + length (splitOn CHR ''\<newline>'' content)\<rparr>)"
  by (simp add: embedFile_def embeddedContent_def Let_def split: option.splits)

lemma blocksOf_append: "blocksOf (xs @ ys) = blocksOf xs @ blocksOf ys"
  by (simp add: blocksOf_def)

lemma linesOf_append: "linesOf (xs @ ys) = linesOf xs + linesOf ys"
  by (simp add: linesOf_def)

lemma fold_processNode:
  assumes "\<And>x st. x \<in> set c \<Longrightarrow>
     processNode entries cp x st =
       st\<lparr>formattedContent := formattedContent st @ blocksOf (embeddedIn entries cp x),
          totalFiles := totalFiles st + visitedFiles x,
          totalFolders := totalFolders st + visitedFolders x,
          linesOfCode := linesOfCode st + linesOf (embeddedIn entries cp x)\<rparr>"
  shows "fold (processNode entries cp) c st =
       st\<lparr>formattedContent := formattedContent st @ blocksOf (concat (map (embeddedIn entries cp) c)),
          totalFiles := totalFiles st + sum_list (map visitedFiles c),
          totalFolders := totalFolders st + sum_list (map visitedFolders c),
          linesOfCode := linesOfCode st + linesOf (concat (map (embeddedIn entries cp) c))\<rparr>"
  using assms
proof (induction c arbitrary: st)
  case Nil
  then show ?case by (simp add: blocksOf_def linesOf_def)
next
  case (Cons x xs)
  have step: "processNode entries cp x st =
       st\<lparr>formattedContent := formattedContent st @ blocksOf (embeddedIn entries cp x),
          totalFiles := totalFiles st + visitedFiles x,
          totalFolders := totalFolders st + visitedFolders x,
          linesOfCode := linesOfCode st + linesOf (embeddedIn entries cp x)\<rparr>"
    using Cons.prems by simp
  have rest: "\<And>y st. y \<in> set xs \<Longrightarrow>
     processNode entries cp y st =
       st\<lparr>formattedContent := formattedContent st @ blocksOf (embeddedIn entries cp y),
          totalFiles := totalFiles st + visitedFiles y,
          totalFolders := totalFolders st + visitedFolders y,
          linesOfCode := linesOfCode st + linesOf (embeddedIn entries cp y)\<rparr>"
    using Cons.prems by simp
  show ?case
    by (simp add: step Cons.IH[OF rest] blocksOf_append linesOf_append add.assoc)
qed

lemma processNode_effect:
  "processNode entries cp node st =
     st\<lparr>formattedContent := formattedContent st @ blocksOf (embeddedIn entries cp node),
        totalFiles := totalFiles st + visitedFiles node,
        totalFolders := totalFolders st + visitedFolders node,
        linesOfCode := linesOfCode st + linesOf (embeddedIn entries cp node)\<rparr>"
proof (induction entries cp node st rule: processNode.induct)
  case (1 entries cp n p t s e ch st)
  show ?case
  proof (cases "t = Folder")
    case True
    show ?thesis
    proof (cases ch)
      case None
      with True show ?thesis by (simp add: blocksOf_def linesOf_def)
    next
      case (Some c)
      have ih: "\<And>x st'. x \<in> set c \<Longrightarrow>
         processNode entries cp x st' =
           st'\<lparr>formattedContent := formattedContent st' @ blocksOf (embeddedIn entries cp x),
              totalFiles := totalFiles st' + visitedFiles x,
              totalFolders := totalFolders st' + visitedFolders x,
              linesOfCode := linesOfCode st' + linesOf (embeddedIn entries cp x)\<rparr>"
        using "1.IH"[OF True refl Some] by simp
      show ?thesis
        using True Some by (simp add: fold_processNode[OF ih])
    qed
  next
    case False
    then show ?thesis
      by (simp add: embedFile_eq blocksOf_def linesOf_def split: option.splits)
  qed
qed

lemma processUpload_effect:
  assumes "processUpload cmp entries = Inr (tree, st)"
  shows "buildFileTree cmp entries = Inr tree"
    and "st = \<lparr>formattedContent = documentHead tree
                  @ blocksOf (embeddedFiles entries (commonPrefixOf entries) tree),
               totalFiles = sum_list (map visitedFiles tree),
               totalFolders = sum_list (map visitedFolders tree),
               linesOfCode = linesOf (embeddedFiles entries (commonPrefixOf entries) tree)\<rparr>"
proof -
  show b: "buildFileTree cmp entries = Inr tree"
    using assms by (auto simp: processUpload_def Let_def split: sum.splits)
  then have "st = fold (processNode entries (commonPrefixOf entries)) tree
                    \<lparr>formattedContent = documentHead tree,
                     totalFiles = 0, totalFolders = 0, linesOfCode = 0\<rparr>"
    using assms by (simp add: processUpload_def Let_def)
  then show "st = \<lparr>formattedContent = documentHead tree
                  @ blocksOf (embeddedFiles entries (commonPrefixOf entries) tree),
               totalFiles = sum_list (map visitedFiles tree),
               totalFolders = sum_list (map visitedFolders tree),
               linesOfCode = linesOf (embeddedFiles entries (commonPrefixOf entries) tree)\<rparr>"
    by (simp add: fold_processNode[OF processNode_effect] embeddedFiles_def)
qed



lemma subNodes_eq:
  "subNodes m = m # (case node_children m of Some c \<Rightarrow> forestNodes c | None \<Rightarrow> [])"
  by (cases m) (simp add: forestNodes_def split: option.splits)

lemma visited_counts:
  assumes "\<forall>m\<in>set (subNodes x). node_type m = File \<longrightarrow> node_children m = None"
  shows "visitedFiles x = length (filter (\<lambda>n. node_type n = File) (subNodes x))
       \<and> visitedFolders x = length (filter (\<lambda>n. node_type n = Folder) (subNodes x))"
  using assms
proof (induction x rule: subNodes.induct)
  case (1 n p t s e ch)
  show ?case
  proof (cases ch)
    case None
    then show ?thesis by (cases t) simp_all
  next
    case (Some c)
    then have t: "t = Folder"
      using "1.prems" by (cases t) auto
    have ih: "\<And>x. x \<in> set c \<Longrightarrow>
        visitedFiles x = length (filter (\<lambda>n. node_type n = File) (subNodes x))
      \<and> visitedFolders x = length (filter (\<lambda>n. node_type n = Folder) (subNodes x))"
      using "1.IH"[OF Some] "1.prems" Some by auto
    have f: "sum_list (map visitedFiles c)
             = length (filter (\<lambda>n. node_type n = File) (concat (map subNodes c)))"
      using ih by (induction c) auto
    have g: "sum_list (map visitedFolders c)
             = length (filter (\<lambda>n. node_type n = Folder) (concat (map subNodes c)))"
      using ih by (induction c) auto
    show ?thesis
      using Some t f g by simp
  qed
qed

lemma visited_counts_forest:
  assumes "\<forall>m\<in>set (forestNodes ts). node_type m = File \<longrightarrow> node_children m = None"
  shows "sum_list (map visitedFiles ts) = countKind File ts
       \<and> sum_list (map visitedFolders ts) = countKind Folder ts"
  using assms
proof (induction ts)
  case Nil
  then show ?case by (simp add: countKind_def forestNodes_def)
next
  case (Cons x xs)
  have "\<forall>m\<in>set (subNodes x). node_type m = File \<longrightarrow> node_children m = None"
    using Cons.prems by (simp add: forestNodes_def)
  from visited_counts[OF this] Cons show ?case
    by (simp add: countKind_def forestNodes_def)
qed

section \<open>Facts about the object-based tree\<close>

lemma rawSubNodes_eq:
  "rawSubNodes n = n # (case raw_children n of Some c \<Rightarrow> rawNodes c | None \<Rightarrow> [])"
  by (cases n) (simp add: rawNodes_def split: option.splits)

lemma rawNodes_Nil [simp]: "rawNodes [] = []"
  by (simp add: rawNodes_def)

lemma rawNodes_Cons: "rawNodes ((k, n) # obj) = rawSubNodes n @ rawNodes obj"
  by (simp add: rawNodes_def)

lemma rawNodes_append: "rawNodes (xs @ ys) = rawNodes xs @ rawNodes ys"
  by (simp add: rawNodes_def)

lemma raw_children_withChildren [simp]: "raw_children (withChildren n ch) = Some ch"
  by (simp add: withChildren_def)

lemma raw_fields_withChildren [simp]:
  "raw_path (withChildren n ch) = raw_path n"
  "raw_name (withChildren n ch) = raw_name n"
  "raw_type (withChildren n ch) = raw_type n"
  by (simp_all add: withChildren_def)

lemma rawSubNodes_withChildren:
  "rawSubNodes (withChildren n ch) = withChildren n ch # rawNodes ch"
  by (simp add: rawSubNodes_eq)

lemma raw_fields_newNode:
  "raw_path (newNode entry parts j part) = join ''/'' (take (j + 1) parts)"
  "raw_name (newNode entry parts j part) = part"
  "raw_type (newNode entry parts j part) = (if j = length parts - 1 \<and> \<not> isDirectory entry then File else Folder)"
  "raw_children (newNode entry parts j part) = (if j = length parts - 1 \<and> \<not> isDirectory entry then None else Some [])"
  by (simp_all add: newNode_def Let_def)

lemma newNode_inner_children:
  "index < length parts - 1 \<Longrightarrow> raw_children (newNode entry parts index part) = Some []"
  by (simp add: newNode_def Let_def)

lemma newNode_last_sub:
  "rawSubNodes (newNode entry parts index part) = [newNode entry parts index part]"
  by (simp add: newNode_def Let_def)

lemma map_of_in_rawNodes:
  "map_of obj key = Some n \<Longrightarrow> set (rawSubNodes n) \<subseteq> set (rawNodes obj)"
  by (induction obj) (auto simp: rawNodes_Cons split: if_splits)

lemma rawNodes_setChildren:
  "map_of obj key = Some n \<Longrightarrow>
   set (rawNodes (setChildren obj key ch))
     \<subseteq> set (rawNodes obj) \<union> insert (withChildren n ch) (set (rawNodes ch))"
  by (induction obj) (auto simp: rawNodes_Cons rawSubNodes_withChildren split: if_splits)

lemma setChildren_append_new:
  "map_of obj key = None \<Longrightarrow>
   setChildren (obj @ [(key, n)]) key ch = obj @ [(key, withChildren n ch)]"
  by (induction obj) (auto split: if_splits)

lemma length_setChildren [simp]: "length (setChildren obj key ch) = length obj"
  by (induction obj) auto

lemma getProp_Own_iff: "getProp obj key = Own n \<longleftrightarrow> map_of obj key = Some n"
  by (auto simp: getProp_def split: option.splits)

lemma getProp_Undefined_iff:
  "getProp obj key = Undefined \<longleftrightarrow> map_of obj key = None \<and> key \<notin> set objectPrototypeKeys"
  by (auto simp: getProp_def split: option.splits)

lemma getProp_append_new:
  "map_of obj key = None \<Longrightarrow> getProp (obj @ [(key, n)]) key = Own n"
  by (simp add: getProp_def map_of_append map_add_def)


lemma insertParts_new_inner:
  assumes "getProp current part = Undefined" and "index < length parts - 1"
  shows "insertParts entry parts index (part # rest) current =
     (case raw_children (newNode entry parts index part) of
        None \<Rightarrow> Inl TypeError
      | Some ch \<Rightarrow>
     (case insertParts entry parts (index + 1) rest ch of
        Inl e \<Rightarrow> Inl e
      | Inr ch' \<Rightarrow> Inr (current @ [(part, withChildren (newNode entry parts index part) ch')])))"
proof -
  have m: "map_of current part = None"
    using assms(1) by (simp add: getProp_Undefined_iff)
  show ?thesis
    using assms m
    by (simp add: getProp_append_new setChildren_append_new split: sum.splits option.splits)
qed

text \<open>
  An invariant of all nodes is kept by one entry's insertion when it holds for a node
  created at the last segment, for a node created on the way once its children are
  filled in, and for an existing folder whose children are replaced by the result \<open>G\<close>
  of the insertion below it.
\<close>

lemma insertParts_invariant:
  assumes "insertParts entry parts index rest current = Inr result"
    and "rest = drop index parts"
    and "\<forall>n\<in>set (rawNodes current). P n"
    and newLast: "\<And>j. j < length parts \<Longrightarrow> \<not> j < length parts - 1 \<Longrightarrow>
                    P (newNode entry parts j (parts ! j))"
    and newInner: "\<And>j ch'. j < length parts - 1 \<Longrightarrow> G ch' \<Longrightarrow>
                    P (withChildren (newNode entry parts j (parts ! j)) ch')"
    and upd: "\<And>n ch ch'. P n \<Longrightarrow> raw_children n = Some ch \<Longrightarrow> G ch' \<Longrightarrow>
                    P (withChildren n ch')"
    and res: "\<And>j cur r. insertParts entry parts j (drop j parts) cur = Inr r \<Longrightarrow>
                    j < length parts \<Longrightarrow> G r"
  shows "\<forall>n\<in>set (rawNodes result). P n"
  using assms(1,2,3)
proof (induction rest arbitrary: index current result)
  case Nil
  then show ?case by simp
next
  case (Cons part rest')
  from Cons.prems(2) have idx: "index < length parts"
    by (metis drop_all leI list.distinct(1))
  from Cons.prems(2) idx have part: "part = parts ! index" and rest': "rest' = drop (index + 1) parts"
    by (metis Cons_nth_drop_Suc list.inject, metis Cons_nth_drop_Suc list.inject Suc_eq_plus1)
  show ?case
  proof (cases "index < length parts - 1")
    case inner: True
    then have idx1: "index + 1 < length parts" by simp
    show ?thesis
    proof (cases "getProp current part = Undefined")
      case True
      from Cons.prems(1) obtain ch' where
        rec: "insertParts entry parts (index + 1) rest' [] = Inr ch'"
        and result: "result = current @ [(part, withChildren (newNode entry parts index part) ch')]"
        by (auto simp del: insertParts.simps
                 simp: insertParts_new_inner[OF True inner] newNode_inner_children[OF inner]
                 split: sum.splits)
      have "\<forall>n\<in>set (rawNodes ch'). P n"
        using Cons.IH[OF rec rest'] by simp
      moreover have "G ch'"
        using res[of "index + 1" "[]" ch'] rec rest' idx1 by simp
      then have "P (withChildren (newNode entry parts index part) ch')"
        using newInner[OF inner] part by simp
      ultimately show ?thesis
        using Cons.prems(3) result
        by (auto simp: rawNodes_append rawNodes_Cons rawSubNodes_withChildren)
    next
      case False
      from Cons.prems(1) False inner obtain n ch ch' where
        own: "getProp current part = Own n" and ch: "raw_children n = Some ch"
        and rec: "insertParts entry parts (index + 1) rest' ch = Inr ch'"
        and result: "result = setChildren current part ch'"
        by (auto split: PropertyValue.splits option.splits sum.splits)
      from own have m: "map_of current part = Some n"
        by (simp add: getProp_Own_iff)
      have sub: "set (rawSubNodes n) \<subseteq> set (rawNodes current)"
        using map_of_in_rawNodes[OF m] .
      have Pn: "P n"
        using sub Cons.prems(3) by (auto simp: rawSubNodes_eq)
      have "set (rawNodes ch) \<subseteq> set (rawNodes current)"
        using sub ch by (auto simp: rawSubNodes_eq)
      then have "\<forall>x\<in>set (rawNodes ch). P x"
        using Cons.prems(3) by blast
      then have Pch': "\<forall>x\<in>set (rawNodes ch'). P x"
        using Cons.IH[OF rec rest'] by simp
      have "G ch'"
        using res[of "index + 1" ch ch'] rec rest' idx1 by simp
      then have "P (withChildren n ch')"
        using upd[OF Pn ch] by simp
      then show ?thesis
        using rawNodes_setChildren[OF m, of ch'] Pch' Cons.prems(3) result by blast
    qed
  next
    case last: False
    then have "rest' = []"
      using rest' by simp
    then have result: "result = (if getProp current part = Undefined
                      then current @ [(part, newNode entry parts index part)]
                      else current)"
      using Cons.prems(1) last by simp
    show ?thesis
    proof (cases "getProp current part = Undefined")
      case True
      have "P (newNode entry parts index part)"
        using newLast[OF idx last] part by simp
      then show ?thesis
        using True result Cons.prems(3)
        by (auto simp: rawNodes_append rawNodes_Cons newNode_last_sub)
    next
      case False
      then show ?thesis using result Cons.prems(3) by simp
    qed
  qed
qed



lemma forEachEntry_invariant:
  assumes "forEachEntry cp es root = Inr result"
    and "\<forall>n\<in>set (rawNodes root). P n"
    and step: "\<And>e cur r. e \<in> set es \<Longrightarrow> partsOf cp e \<noteq> [] \<Longrightarrow>
                 insertParts e (partsOf cp e) 0 (partsOf cp e) cur = Inr r \<Longrightarrow>
                 \<forall>n\<in>set (rawNodes cur). P n \<Longrightarrow> \<forall>n\<in>set (rawNodes r). P n"
  shows "\<forall>n\<in>set (rawNodes result). P n"
  using assms
proof (induction es arbitrary: root)
  case Nil
  then show ?case by simp
next
  case (Cons e es)
  from Cons.prems(1) obtain root' where
    ins: "insertEntry cp e root = Inr root'" and rest: "forEachEntry cp es root' = Inr result"
    by (auto split: sum.splits)
  have "\<forall>n\<in>set (rawNodes root'). P n"
  proof (cases "partsOf cp e = []")
    case True
    then show ?thesis using ins Cons.prems(2) by (simp add: insertEntry_def)
  next
    case False
    then have "insertParts e (partsOf cp e) 0 (partsOf cp e) root = Inr root'"
      using ins by (simp add: insertEntry_def Let_def)
    from Cons.prems(3)[OF _ False this Cons.prems(2)] show ?thesis by simp
  qed
  then show ?case
  proof (rule Cons.IH[OF rest])
    fix e' cur r
    assume "e' \<in> set es" "partsOf cp e' \<noteq> []"
      "insertParts e' (partsOf cp e') 0 (partsOf cp e') cur = Inr r"
      "\<forall>n\<in>set (rawNodes cur). P n"
    then show "\<forall>n\<in>set (rawNodes r). P n"
      using Cons.prems(3)[of e' cur r] by simp
  qed
qed


lemma rawTree_wellformed:
  assumes "forEachEntry cp es [] = Inr root"
  shows "\<forall>n\<in>set (rawNodes root). (raw_type n = File \<longleftrightarrow> raw_children n = None)"
proof (rule forEachEntry_invariant[OF assms])
  show "\<forall>n\<in>set (rawNodes []). (raw_type n = File \<longleftrightarrow> raw_children n = None)" by simp
next
  fix e cur r
  assume ins: "insertParts e (partsOf cp e) 0 (partsOf cp e) cur = Inr r"
    and cur: "\<forall>n\<in>set (rawNodes cur). (raw_type n = File \<longleftrightarrow> raw_children n = None)"
  show "\<forall>n\<in>set (rawNodes r). (raw_type n = File \<longleftrightarrow> raw_children n = None)"
  proof (rule insertParts_invariant[OF ins _ cur, where G = "\<lambda>_. True"])
    fix n :: RawNode and ch ch' :: JsObject
    assume "raw_type n = File \<longleftrightarrow> raw_children n = None" "raw_children n = Some ch"
    then show "raw_type (withChildren n ch') = File \<longleftrightarrow> raw_children (withChildren n ch') = None"
      by simp
  qed (auto simp: raw_fields_newNode)
qed



section \<open>From the object-based tree to the returned forest\<close>

lemma set_objectValues: "set (objectValues xs) = snd ` set xs"
  by (auto simp: objectValues_def ownKeysOrder_def image_Un[symmetric] intro!: arg_cong[where f="image snd"])



lemma convertItem_fields:
  "node_name (convertItem n) = raw_name n"
  "node_path (convertItem n) = raw_path n"
  "node_type (convertItem n) = raw_type n"
  "node_children (convertItem n) = map_option convertToArray (raw_children n)"
  by (cases n; simp split: option.splits)+

lemma forestNodes_convert:
  "set (forestNodes (convertToArray obj)) = convertItem ` set (rawNodes obj)"
  "set (subNodes (convertItem n)) = convertItem ` set (rawSubNodes n)"
proof (induction obj and n rule: convertToArray_convertItem.induct)
  case (1 node)
  have "set (forestNodes (convertToArray node))
        = (\<Union>x \<in> set (objectValues node). set (subNodes (convertItem x)))"
    by (simp add: forestNodes_def)
  also have "\<dots> = (\<Union>x \<in> set (objectValues node). convertItem ` set (rawSubNodes x))"
    using 1 by simp
  also have "\<dots> = convertItem ` set (rawNodes node)"
    by (force simp: set_objectValues rawNodes_def)
  finally show ?case .
next
  case (2 n p t s e ch)
  show ?case
  proof (cases ch)
    case None
    then show ?thesis by simp
  next
    case (Some c)
    with 2 have "set (forestNodes (convertToArray c)) = convertItem ` set (rawNodes c)"
      by simp
    then show ?thesis
      using Some by (simp add: forestNodes_def rawNodes_def del: convertToArray.simps)
  qed
qed

lemma buildFileTree_nodes:
  assumes "buildFileTree cmp entries = Inr tree"
  obtains root where
    "forEachEntry (commonPrefixOf (validEntries cmp entries)) (validEntries cmp entries) [] = Inr root"
    and "tree = convertToArray root"
  using assms by (auto simp: buildFileTree_def Let_def split: sum.splits)

lemma tree_wellformed:
  assumes "buildFileTree cmp entries = Inr tree" and "m \<in> set (forestNodes tree)"
  shows "node_type m = File \<longleftrightarrow> node_children m = None"
proof -
  from assms(1) obtain root where
    root: "forEachEntry (commonPrefixOf (validEntries cmp entries)) (validEntries cmp entries) [] = Inr root"
    and tree: "tree = convertToArray root"
    by (rule buildFileTree_nodes)
  from assms(2) tree obtain n where n: "n \<in> set (rawNodes root)" and m: "m = convertItem n"
    by (auto simp: forestNodes_convert(1) simp del: convertToArray.simps)
  have "raw_type n = File \<longleftrightarrow> raw_children n = None"
    using rawTree_wellformed[OF root] n by simp
  then show ?thesis
    by (simp add: m convertItem_fields del: convertToArray.simps)
qed


section \<open>Folders and their children\<close>




text \<open>
  The converse is not claimed.  A retained directory entry without descendants need not
  give a node at all: when its whole path is the detected prefix, the stripped path has
  no segment and the entry is skipped.
\<close>

lemma directory_entry_equal_to_prefix_is_skipped:
  "buildFileTree codeUnitCompare [dirEntry ''proj/''] = Inr []
   \<and> buildFileTree codeUnitCompare [dirEntry ''proj/'', fileEntry ''proj/.git/config'' ''x''] = Inr []"
  by code_simp

text \<open>
  The hypothesis on inherited names is needed: for the file \<open>a/toString\<close> the read
  \<open>current['toString']\<close> finds the inherited function, no node is created for the
  file, and the folder \<open>a\<close> stays empty although no directory entry made it.
\<close>

lemma inherited_name_leaves_folder_empty:
  "buildFileTree codeUnitCompare [fileEntry ''a/toString'' ''x'', fileEntry ''b'' ''y'']
     = Inr [FileTreeNode ''a'' ''a'' Folder None None (Some []),
            FileTreeNode ''b'' ''b'' File (Some 1) (Some []) None]"
  by code_simp

section \<open>The scenario of the specification\<close>

text \<open>
  C2.  For the archive \<open>proj/src/a.py\<close> (content \<open>print(1)\<close> and a newline),
  \<open>proj/src/b.txt\<close> (empty) and \<open>proj/node_modules/x.js\<close> (anything), with a
  comparator that puts \<open>a.py\<close> before \<open>b.txt\<close>: the prefix \<open>proj/\<close> is detected by
  the tree builder and by the route; the tree is the single folder \<open>src\<close> with the two
  files \<open>a.py\<close> and \<open>b.txt\<close> and no \<open>node_modules\<close>; the document is its head followed
  by the block of \<open>src/a.py\<close> only; the counters are 2 files, 1 folder and 2 lines of
  code, since splitting \<open>print(1)\<close> with its final newline gives two parts.
\<close>

theorem scenario_pipeline:
  assumes "cmp ''proj/src/a.py'' ''proj/src/b.txt'' < 0"
  shows "commonPrefixOf (validEntries cmp (scenarioEntries xsize xdata)) = ''proj/''
       \<and> commonPrefixOf (scenarioEntries xsize xdata) = ''proj/''
       \<and> processUpload cmp (scenarioEntries xsize xdata)
           = Inr (scenarioTree,
                  \<lparr>formattedContent =
                     documentHead scenarioTree @ formatFileContent ''src/a.py'' ''print(1)\<newline>'',
                   totalFiles = 2, totalFolders = 1, linesOfCode = 2\<rparr>)
       \<and> formatFileContent ''src/a.py'' ''print(1)\<newline>''
           = ''### src/a.py\<newline>```python\<newline>print(1)\<newline>\<newline>```\<newline>\<newline>''"
proof -
  have block: "formatFileContent ''src/a.py'' ''print(1)\<newline>''
           = ''### src/a.py\<newline>```python\<newline>print(1)\<newline>\<newline>```\<newline>\<newline>''"
    by code_simp
  have kept: "filter (\<lambda>entry. \<not> shouldIgnore (entryName entry)) (scenarioEntries xsize xdata)
              = [fileEntry ''proj/src/a.py'' ''print(1)\<newline>'', fileEntry ''proj/src/b.txt'' []]"
    by code_simp
  have valid: "validEntries cmp (scenarioEntries xsize xdata)
              = [fileEntry ''proj/src/a.py'' ''print(1)\<newline>'', fileEntry ''proj/src/b.txt'' []]"
    using assms by (simp add: validEntries_def kept sortBy_def fileEntry_def)
  have p1: "commonPrefixOf [fileEntry ''proj/src/a.py'' ''print(1)\<newline>'', fileEntry ''proj/src/b.txt'' []]
            = ''proj/''"
    by code_simp
  have p2: "commonPrefixOf (scenarioEntries xsize xdata) = ''proj/''"
    by code_simp
  have tree: "forEachEntry ''proj/''
                [fileEntry ''proj/src/a.py'' ''print(1)\<newline>'', fileEntry ''proj/src/b.txt'' []] []
              = Inr [(''src'', RawNode ''src'' ''src'' Folder None None
                       (Some [(''a.py'', RawNode ''a.py'' ''src/a.py'' File (Some 9) (Some ''.py'') None),
                              (''b.txt'', RawNode ''b.txt'' ''src/b.txt'' File (Some 0) (Some ''.txt'') None)]))]"
    by code_simp
  have conv: "convertToArray [(''src'', RawNode ''src'' ''src'' Folder None None
                       (Some [(''a.py'', RawNode ''a.py'' ''src/a.py'' File (Some 9) (Some ''.py'') None),
                              (''b.txt'', RawNode ''b.txt'' ''src/b.txt'' File (Some 0) (Some ''.txt'') None)]))]
              = scenarioTree"
    by code_simp
  have build: "buildFileTree cmp (scenarioEntries xsize xdata) = Inr scenarioTree"
    by (simp only: buildFileTree_def Let_def valid p1 tree conv sum.case)
  have walk: "fold (processNode (scenarioEntries xsize xdata) ''proj/'') scenarioTree
                \<lparr>formattedContent = documentHead scenarioTree,
                 totalFiles = 0, totalFolders = 0, linesOfCode = 0\<rparr>
              = \<lparr>formattedContent =
                     documentHead scenarioTree @ formatFileContent ''src/a.py'' ''print(1)\<newline>'',
                   totalFiles = 2, totalFolders = 1, linesOfCode = 2\<rparr>"
    by code_simp
  have "processUpload cmp (scenarioEntries xsize xdata)
           = Inr (scenarioTree,
                  \<lparr>formattedContent =
                     documentHead scenarioTree @ formatFileContent ''src/a.py'' ''print(1)\<newline>'',
                   totalFiles = 2, totalFolders = 1, linesOfCode = 2\<rparr>)"
    by (simp only: processUpload_def Let_def build p2 walk sum.case)
  then show ?thesis
    using valid p1 p2 block by simp
qed

text \<open>The scenario with code-unit order as comparator and some content for \<open>x.js\<close>.\<close>

theorem scenario_pipeline_witness:
  "codeUnitCompare ''proj/src/a.py'' ''proj/src/b.txt'' < 0
   \<and> processUpload codeUnitCompare (scenarioEntries 12 (Some ''let x = 1;''))
       = Inr (scenarioTree,
              \<lparr>formattedContent =
                 documentHead scenarioTree @ formatFileContent ''src/a.py'' ''print(1)\<newline>'',
               totalFiles = 2, totalFolders = 1, linesOfCode = 2\<rparr>)"
proof -
  have h: "codeUnitCompare ''proj/src/a.py'' ''proj/src/b.txt'' < 0"
    by code_simp
  show ?thesis
    using h scenario_pipeline[of codeUnitCompare 12 "Some ''let x = 1;''"] by simp
qed

text \<open>
  Without the amendment the statement of C2 fails in its last number: the run of the
  scenario ends with \<open>linesOfCode = 2\<close>, not 1.
\<close>

theorem scenario_linesOfCode_counterexample:
  "statsOf (processUpload codeUnitCompare (scenarioEntries 12 (Some ''let x = 1;''))) = Some (2, 1, 2)
   \<and> statsOf (processUpload codeUnitCompare (scenarioEntries 12 (Some ''let x = 1;''))) \<noteq> Some (2, 1, 1)"
  by code_simp

section \<open>Sibling order\<close>

text \<open>
  C3.  Siblings are meant to appear in the order of the sorted entries that created
  them.  For the archive with the files \<open>10/a.txt\<close> and \<open>2/b.txt\<close> the retained
  entries are sorted with \<open>10/a.txt\<close> first, yet the returned forest lists folder \<open>2\<close>
  before folder \<open>10\<close>: both names are array indices, which an object enumerates in
  numeric order whatever the insertion order was.
\<close>

theorem buildFileTree_numeric_names_reordered:
  "map entryName (validEntries codeUnitCompare
      [fileEntry ''10/a.txt'' ''x'', fileEntry ''2/b.txt'' ''y''])
     = [''10/a.txt'', ''2/b.txt'']
   \<and> buildFileTree codeUnitCompare [fileEntry ''10/a.txt'' ''x'', fileEntry ''2/b.txt'' ''y'']
     = Inr [FileTreeNode ''2'' ''2'' Folder None None
              (Some [FileTreeNode ''b.txt'' ''2/b.txt'' File (Some 1) (Some ''.txt'') None]),
            FileTreeNode ''10'' ''10'' Folder None None
              (Some [FileTreeNode ''a.txt'' ''10/a.txt'' File (Some 1) (Some ''.txt'') None])]"
  by code_simp

section \<open>The two computations of the common prefix\<close>

text \<open>
  C4.  The prefix is computed twice, by \<open>buildFileTree\<close> from the filtered and sorted
  entries and by the route from all entries in archive order.  For the archive
  \<open>.gitignore\<close>, \<open>p/a.py\<close> (content A), \<open>p/p/a.py\<close> (content B) the tree builder
  strips \<open>p/\<close> while the route computes the empty prefix; the node with path
  \<open>p/a.py\<close>, which stands for the entry \<open>p/p/a.py\<close>, is then looked up as \<open>p/a.py\<close>
  and receives the content A of another file.
\<close>

theorem commonPrefix_tree_route_differ:
  "commonPrefixOf (validEntries codeUnitCompare
      [fileEntry ''.gitignore'' ''x'', fileEntry ''p/a.py'' ''A'', fileEntry ''p/p/a.py'' ''B'']) = ''p/''
   \<and> commonPrefixOf
      [fileEntry ''.gitignore'' ''x'', fileEntry ''p/a.py'' ''A'', fileEntry ''p/p/a.py'' ''B''] = []
   \<and> buildFileTree codeUnitCompare
      [fileEntry ''.gitignore'' ''x'', fileEntry ''p/a.py'' ''A'', fileEntry ''p/p/a.py'' ''B'']
     = Inr [FileTreeNode ''a.py'' ''a.py'' File (Some 1) (Some ''.py'') None,
            FileTreeNode ''p'' ''p'' Folder None None
              (Some [FileTreeNode ''a.py'' ''p/a.py'' File (Some 1) (Some ''.py'') None])]
   \<and> embeddedFiles
        [fileEntry ''.gitignore'' ''x'', fileEntry ''p/a.py'' ''A'', fileEntry ''p/p/a.py'' ''B''] []
        [FileTreeNode ''a.py'' ''a.py'' File (Some 1) (Some ''.py'') None,
         FileTreeNode ''p'' ''p'' Folder None None
           (Some [FileTreeNode ''a.py'' ''p/a.py'' File (Some 1) (Some ''.py'') None])]
     = [(''a.py'', ''A''), (''p/a.py'', ''A'')]"
  by code_simp

section \<open>A file met again as a folder\<close>

text \<open>
  C5.  For the archive with the file \<open>a\<close> and the file \<open>a/b\<close>, the file node \<open>a\<close> is
  created first; the second entry then descends into its undefined \<open>children\<close> and the
  read of the next segment throws.  \<open>buildFileTree\<close> returns no tree and the upload
  fails as a whole.
\<close>

theorem buildFileTree_file_then_folder_throws:
  "buildFileTree codeUnitCompare [fileEntry ''a'' ''x'', fileEntry ''a/b'' ''y''] = Inl TypeError
   \<and> processUpload codeUnitCompare [fileEntry ''a'' ''x'', fileEntry ''a/b'' ''y''] = Inl TypeError"
  by code_simp

section \<open>Lines of code\<close>

text \<open>
  C6.  For every run that returns, \<open>linesOfCode\<close> is the sum, over the files whose
  content was embedded, of the number of parts that splitting the content at newlines
  gives; and those files are exactly the ones whose blocks follow the head of the
  document, in the same order.  Files skipped for their extension, for emptiness or
  because no entry was found are not in that list and add nothing.
\<close>

theorem processUpload_linesOfCode:
  assumes "processUpload cmp entries = Inr (tree, st)"
  shows "linesOfCode st = linesOf (embeddedFiles entries (commonPrefixOf entries) tree)
       \<and> formattedContent st = documentHead tree @ blocksOf (embeddedFiles entries (commonPrefixOf entries) tree)"
  by (simp add: processUpload_effect(2)[OF assms])

text \<open>
  A run with one embedded file of two lines, one file of blanks and one file whose
  extension is not allowed.
\<close>

theorem processUpload_linesOfCode_witness:
  "processUpload codeUnitCompare
     [fileEntry ''a.py'' ''x\<newline>y'', fileEntry ''b.md'' '' '', fileEntry ''c.bin'' ''zz'']
     = Inr ([FileTreeNode ''a.py'' ''a.py'' File (Some 3) (Some ''.py'') None,
             FileTreeNode ''b.md'' ''b.md'' File (Some 1) (Some ''.md'') None,
             FileTreeNode ''c.bin'' ''c.bin'' File (Some 2) (Some ''.bin'') None],
            \<lparr>formattedContent =
               documentHead [FileTreeNode ''a.py'' ''a.py'' File (Some 3) (Some ''.py'') None,
                             FileTreeNode ''b.md'' ''b.md'' File (Some 1) (Some ''.md'') None,
                             FileTreeNode ''c.bin'' ''c.bin'' File (Some 2) (Some ''.bin'') None]
               @ formatFileContent ''a.py'' ''x\<newline>y'',
             totalFiles = 3, totalFolders = 0, linesOfCode = 2\<rparr>)
   \<and> embeddedFiles
         [fileEntry ''a.py'' ''x\<newline>y'', fileEntry ''b.md'' '' '', fileEntry ''c.bin'' ''zz'']
         (commonPrefixOf
            [fileEntry ''a.py'' ''x\<newline>y'', fileEntry ''b.md'' '' '', fileEntry ''c.bin'' ''zz''])
         [FileTreeNode ''a.py'' ''a.py'' File (Some 3) (Some ''.py'') None,
          FileTreeNode ''b.md'' ''b.md'' File (Some 1) (Some ''.md'') None,
          FileTreeNode ''c.bin'' ''c.bin'' File (Some 2) (Some ''.bin'') None]
       = [(''a.py'', ''x\<newline>y'')]
   \<and> linesOf [(''a.py'', ''x\<newline>y'')] = 2"
proof -
  have h: "processUpload codeUnitCompare
     [fileEntry ''a.py'' ''x\<newline>y'', fileEntry ''b.md'' '' '', fileEntry ''c.bin'' ''zz'']
     = Inr ([FileTreeNode ''a.py'' ''a.py'' File (Some 3) (Some ''.py'') None,
             FileTreeNode ''b.md'' ''b.md'' File (Some 1) (Some ''.md'') None,
             FileTreeNode ''c.bin'' ''c.bin'' File (Some 2) (Some ''.bin'') None],
            \<lparr>formattedContent =
               documentHead [FileTreeNode ''a.py'' ''a.py'' File (Some 3) (Some ''.py'') None,
                             FileTreeNode ''b.md'' ''b.md'' File (Some 1) (Some ''.md'') None,
                             FileTreeNode ''c.bin'' ''c.bin'' File (Some 2) (Some ''.bin'') None]
               @ formatFileContent ''a.py'' ''x\<newline>y'',
             totalFiles = 3, totalFolders = 0, linesOfCode = 2\<rparr>)"
    by code_simp
  have e: "embeddedFiles
         [fileEntry ''a.py'' ''x\<newline>y'', fileEntry ''b.md'' '' '', fileEntry ''c.bin'' ''zz'']
         (commonPrefixOf
            [fileEntry ''a.py'' ''x\<newline>y'', fileEntry ''b.md'' '' '', fileEntry ''c.bin'' ''zz''])
         [FileTreeNode ''a.py'' ''a.py'' File (Some 3) (Some ''.py'') None,
          FileTreeNode ''b.md'' ''b.md'' File (Some 1) (Some ''.md'') None,
          FileTreeNode ''c.bin'' ''c.bin'' File (Some 2) (Some ''.bin'') None]
       = [(''a.py'', ''x\<newline>y'')]"
    by code_simp
  show ?thesis
    using h e processUpload_linesOfCode[OF h] by simp
qed

section \<open>Counts of files and folders\<close>

text \<open>
  C7.  For every run that returns, \<open>totalFiles\<close> is the number of File nodes and
  \<open>totalFolders\<close> the number of Folder nodes of the returned tree, counted over all
  its nodes.
\<close>

theorem processUpload_counts:
  assumes "processUpload cmp entries = Inr (tree, st)"
  shows "totalFiles st = countKind File tree \<and> totalFolders st = countKind Folder tree"
proof -
  have b: "buildFileTree cmp entries = Inr tree"
    using processUpload_effect(1)[OF assms] .
  have "\<forall>m\<in>set (forestNodes tree). node_type m = File \<longrightarrow> node_children m = None"
    using tree_wellformed[OF b] by blast
  from visited_counts_forest[OF this] show ?thesis
    by (simp add: processUpload_effect(2)[OF assms])
qed

text \<open>A run over a directory entry, a file inside it and a file at the top level.\<close>

theorem processUpload_counts_witness:
  "statsOf (processUpload codeUnitCompare
      [dirEntry ''d/'', fileEntry ''d/a.py'' ''x'', fileEntry ''e.txt'' ''y'']) = Some (2, 1, 2)
   \<and> countKind File
        [FileTreeNode ''d'' ''d'' Folder None None
           (Some [FileTreeNode ''a.py'' ''d/a.py'' File (Some 1) (Some ''.py'') None]),
         FileTreeNode ''e.txt'' ''e.txt'' File (Some 1) (Some ''.txt'') None] = 2
   \<and> countKind Folder
        [FileTreeNode ''d'' ''d'' Folder None None
           (Some [FileTreeNode ''a.py'' ''d/a.py'' File (Some 1) (Some ''.py'') None]),
         FileTreeNode ''e.txt'' ''e.txt'' File (Some 1) (Some ''.txt'') None] = 1"
proof -
  have h: "processUpload codeUnitCompare
      [dirEntry ''d/'', fileEntry ''d/a.py'' ''x'', fileEntry ''e.txt'' ''y'']
     = Inr ([FileTreeNode ''d'' ''d'' Folder None None
               (Some [FileTreeNode ''a.py'' ''d/a.py'' File (Some 1) (Some ''.py'') None]),
             FileTreeNode ''e.txt'' ''e.txt'' File (Some 1) (Some ''.txt'') None],
            \<lparr>formattedContent =
               documentHead [FileTreeNode ''d'' ''d'' Folder None None
                   (Some [FileTreeNode ''a.py'' ''d/a.py'' File (Some 1) (Some ''.py'') None]),
                 FileTreeNode ''e.txt'' ''e.txt'' File (Some 1) (Some ''.txt'') None]
               @ formatFileContent ''d/a.py'' ''x'' @ formatFileContent ''e.txt'' ''y'',
             totalFiles = 2, totalFolders = 1, linesOfCode = 2\<rparr>)"
    by code_simp
  show ?thesis
    using processUpload_counts[OF h] by (simp add: h statsOf_def)
qed

section \<open>Files counted without content\<close>

text \<open>
  C8.  Take a File node whose extension is allowed.  When no entry matches it, or the
  matching entry is a directory, or reading its data throws, or its text is empty or
  all white space, the walk only adds one to \<open>totalFiles\<close>: nothing is appended to the
  document, the line count is unchanged, and the walk goes on with the remaining nodes
  from that state.
\<close>

theorem processNode_skips_without_content:
  assumes "getFileExtension n \<in> set ALLOWED_EXTENSIONS"
    and "findEntry entries (cp @ p) p = None
         \<or> (\<exists>entry. findEntry entries (cp @ p) p = Some entry
               \<and> (isDirectory entry \<or> getData entry = None
                  \<or> (\<exists>content. getData entry = Some content \<and> (\<forall>c\<in>set content. isWhiteSpace c))))"
  shows "processNode entries cp (FileTreeNode n p File s e ch) st = st\<lparr>totalFiles := totalFiles st + 1\<rparr>
       \<and> fold (processNode entries cp) (FileTreeNode n p File s e ch # rest) st
           = fold (processNode entries cp) rest (st\<lparr>totalFiles := totalFiles st + 1\<rparr>)"
proof -
  have "embedFile entries cp p (st\<lparr>totalFiles := totalFiles st + 1\<rparr>) = st\<lparr>totalFiles := totalFiles st + 1\<rparr>"
    using assms(2) by (auto simp: embedFile_def Let_def trim_empty_iff)
  then show ?thesis
    using assms(1) by simp
qed

text \<open>
  A file of blanks followed by a sibling with content: the first is counted only, the
  second is counted and embedded.
\<close>

theorem processNode_skips_without_content_witness:
  "getFileExtension ''b.txt'' \<in> set ALLOWED_EXTENSIONS
   \<and> findEntry [fileEntry ''b.txt'' ''  \<newline>'', fileEntry ''c.txt'' ''z''] ''b.txt'' ''b.txt''
       = Some (fileEntry ''b.txt'' ''  \<newline>'')
   \<and> list_all isWhiteSpace ''  \<newline>''
   \<and> fold (processNode [fileEntry ''b.txt'' ''  \<newline>'', fileEntry ''c.txt'' ''z''] [])
        [FileTreeNode ''b.txt'' ''b.txt'' File (Some 3) (Some ''.txt'') None,
         FileTreeNode ''c.txt'' ''c.txt'' File (Some 1) (Some ''.txt'') None]
        \<lparr>formattedContent = [], totalFiles = 0, totalFolders = 0, linesOfCode = 0\<rparr>
     = \<lparr>formattedContent = formatFileContent ''c.txt'' ''z'',
        totalFiles = 2, totalFolders = 0, linesOfCode = 1\<rparr>"
proof -
  have h1: "getFileExtension ''b.txt'' \<in> set ALLOWED_EXTENSIONS"
    by code_simp
  have f: "findEntry [fileEntry ''b.txt'' ''  \<newline>'', fileEntry ''c.txt'' ''z''] ([] @ ''b.txt'') ''b.txt''
       = Some (fileEntry ''b.txt'' ''  \<newline>'')"
    by code_simp
  have w: "\<forall>c\<in>set ''  \<newline>''. isWhiteSpace c"
    by code_simp
  have h2: "findEntry [fileEntry ''b.txt'' ''  \<newline>'', fileEntry ''c.txt'' ''z''] ([] @ ''b.txt'') ''b.txt'' = None
         \<or> (\<exists>entry. findEntry [fileEntry ''b.txt'' ''  \<newline>'', fileEntry ''c.txt'' ''z''] ([] @ ''b.txt'') ''b.txt'' = Some entry
               \<and> (isDirectory entry \<or> getData entry = None
                  \<or> (\<exists>content. getData entry = Some content \<and> (\<forall>c\<in>set content. isWhiteSpace c))))"
    using f w by (simp add: fileEntry_def)
  have rest: "fold (processNode [fileEntry ''b.txt'' ''  \<newline>'', fileEntry ''c.txt'' ''z''] [])
        [FileTreeNode ''c.txt'' ''c.txt'' File (Some 1) (Some ''.txt'') None]
        (\<lparr>formattedContent = [], totalFiles = 0, totalFolders = 0, linesOfCode = 0\<rparr>
           \<lparr>totalFiles := totalFiles \<lparr>formattedContent = [], totalFiles = 0, totalFolders = 0, linesOfCode = 0\<rparr> + 1\<rparr>)
     = \<lparr>formattedContent = formatFileContent ''c.txt'' ''z'',
        totalFiles = 2, totalFolders = 0, linesOfCode = 1\<rparr>"
    by code_simp
  have w': "list_all isWhiteSpace ''  \<newline>''"
    using w by (simp add: list_all_iff)
  show ?thesis
    using h1 f w' rest
      processNode_skips_without_content[OF h1 h2,
        where s = "Some 3" and e = "Some ''.txt''" and ch = None
          and rest = "[FileTreeNode ''c.txt'' ''c.txt'' File (Some 1) (Some ''.txt'') None]"
          and st = "\<lparr>formattedContent = [], totalFiles = 0, totalFolders = 0, linesOfCode = 0\<rparr>"]
    by simp
qed

section \<open>Stripping the common root\<close>

text \<open>
  C9.  When the entry paths share no top-level folder the detected prefix is
  empty and stripping changes nothing.  On paths that were already stripped once, the
  normalizer detects a further prefix exactly when the stripped paths again share a
  top-level folder: each application removes one level.
\<close>

theorem commonPrefix_strips_one_level:
  "(\<not> sharesTopFolder (map entryName es) \<longrightarrow> commonPrefixOf es = [] \<and> stripRoot es = es)
   \<and> (commonPrefixOf (stripRoot es) \<noteq> [] \<longleftrightarrow> sharesTopFolder (map entryName (stripRoot es)))"
  using commonPrefixOf_nonempty_iff[of es] commonPrefixOf_nonempty_iff[of "stripRoot es"]
    stripRoot_noop[of es] by blast

text \<open>Two paths under different top-level folders.\<close>

theorem commonPrefix_strips_one_level_witness:
  "\<not> sharesTopFolder (map entryName [fileEntry ''a/x.md'' ''x'', fileEntry ''b/y.md'' ''y''])
   \<and> commonPrefixOf [fileEntry ''a/x.md'' ''x'', fileEntry ''b/y.md'' ''y''] = []
   \<and> stripRoot [fileEntry ''a/x.md'' ''x'', fileEntry ''b/y.md'' ''y'']
       = [fileEntry ''a/x.md'' ''x'', fileEntry ''b/y.md'' ''y'']"
proof -
  have h: "\<not> sharesTopFolder (map entryName [fileEntry ''a/x.md'' ''x'', fileEntry ''b/y.md'' ''y''])"
    by code_simp
  show ?thesis
    using h commonPrefix_strips_one_level[of "[fileEntry ''a/x.md'' ''x'', fileEntry ''b/y.md'' ''y'']"]
    by blast
qed

text \<open>
  Without the amendment the statement of C9 fails in its second half: the paths \<open>a/b/c.py\<close> and \<open>a/b/d.py\<close> are
  stripped to \<open>b/c.py\<close> and \<open>b/d.py\<close>, and on these the normalizer detects the
  further prefix \<open>b/\<close>.
\<close>

theorem stripRoot_not_idempotent_counterexample:
  "commonPrefixOf (stripRoot [fileEntry ''a/b/c.py'' ''x'', fileEntry ''a/b/d.py'' ''y'']) = ''b/''"
  by code_simp

section \<open>Dot segments and the document\<close>




text \<open>
  The statement above is about the headings.  The text below a heading is that of the
  first entry, in archive order, whose name is the looked-up path or ends with a slash
  and the node's path; for the archive \<open>.x/a.py\<close>, \<open>a.py\<close> the block headed
  \<open>a.py\<close> carries the text of the ignored entry \<open>.x/a.py\<close>.
\<close>

lemma suffix_lookup_finds_ignored_entry:
  "embeddedFiles [fileEntry ''.x/a.py'' ''hidden'', fileEntry ''a.py'' ''shown'']
     (commonPrefixOf [fileEntry ''.x/a.py'' ''hidden'', fileEntry ''a.py'' ''shown''])
     [FileTreeNode ''a.py'' ''a.py'' File (Some 5) (Some ''.py'') None]
   = [(''a.py'', ''hidden'')]
   \<and> buildFileTree codeUnitCompare [fileEntry ''.x/a.py'' ''hidden'', fileEntry ''a.py'' ''shown'']
   = Inr [FileTreeNode ''a.py'' ''a.py'' File (Some 5) (Some ''.py'') None]"
  by code_simp

end
